theory Spec2Isabelle
  imports Main "HOL-Library.Word"
begin

unbundle bit_operations_syntax

section \<open>The knode decoder (src/knode.go)\<close>

text \<open>
  A shallow embedding of the Kronark node file parser. Go's \<open>byte\<close> is \<open>8 word\<close>,
  \<open>int16\<close> is \<open>16 word\<close> (read with \<open>sint\<close>), \<open>uint32\<close> is \<open>32 word\<close>. A Go string is
  a sequence of bytes; it is modelled as an Isabelle \<open>string\<close>, whose characters are bytes
  too. The parser struct is threaded explicitly: every method takes the parser and returns
  the updated parser together with its \<open>*ParseError\<close> result (\<open>None\<close> for \<open>nil\<close>).
\<close>

subsection \<open>Constants and data\<close>

type_synonym byte = "8 word"

definition MAGIC_NUMBER :: string where
  "MAGIC_NUMBER = ''kronarknode''"

definition LATEST_VERSION :: nat where
  "LATEST_VERSION = 1"

record Position =
  X :: "16 word"
  Y :: "16 word"

text \<open>\<open>SocketType\<close> is a byte in the source, with six named values.\<close>

type_synonym SocketType = byte

definition OutgoingNamed :: SocketType where "OutgoingNamed = 0"
definition IncomingNamed :: SocketType where "IncomingNamed = 1"
definition IncomingNumber :: SocketType where "IncomingNumber = 2"
definition IncomingSelect :: SocketType where "IncomingSelect = 3"
definition IncomingSwitch :: SocketType where "IncomingSwitch = 4"
definition IncomingText :: SocketType where "IncomingText = 5"

record Socket =
  Type :: SocketType
  ValueType :: byte
  PortSlot :: byte
  Repetitive :: bool
  Connected :: bool
  ConnectedSocket :: byte
  ConnectedNode :: byte
  Value :: string

text \<open>
  The fields \<open>Type\<close> and \<open>Position\<close> of \<open>Instance\<close> are named \<open>InstType\<close> and
  \<open>InstPosition\<close> here, since \<open>Socket\<close> and the output root have fields of the same name.
\<close>

record Instance =
  Key :: byte
  InstType :: byte
  Name :: string
  InstPosition :: Position
  Sockets :: "Socket list"

text \<open>The anonymous struct of the field \<open>OutputRoot\<close>; a \<open>[2]byte\<close> is a pair.\<close>

record OutputRootT =
  Position :: Position
  Connections :: "(byte \<times> byte) list"

record Node =
  Version :: byte
  InputRootPosition :: Position
  OutputRoot :: OutputRootT
  Nodes :: "string list"
  Types :: "string list"
  Instances :: "Instance list"

record ParseError =
  Context :: string
  Message :: string
  Index :: nat

text \<open>The parser struct: fields \<open>buf\<close>, \<open>i\<close>, \<open>ctx\<close> and \<open>n\<close> of the source.\<close>

record parser =
  p_buf :: "byte list"
  p_i :: nat
  p_ctx :: string
  p_n :: Node

text \<open>The zero values that \<open>var s Socket\<close>, \<open>var i Instance\<close> and \<open>&Node{}\<close> create.\<close>

definition zero_Position :: Position where
  "zero_Position = \<lparr>X = 0, Y = 0\<rparr>"

definition zero_Socket :: Socket where
  "zero_Socket = \<lparr>Type = 0, ValueType = 0, PortSlot = 0, Repetitive = False,
     Connected = False, ConnectedSocket = 0, ConnectedNode = 0, Value = []\<rparr>"

definition zero_Instance :: Instance where
  "zero_Instance = \<lparr>Key = 0, InstType = 0, Name = [], InstPosition = zero_Position,
     Sockets = []\<rparr>"

definition zero_Node :: Node where
  "zero_Node = \<lparr>Version = 0, InputRootPosition = zero_Position,
     OutputRoot = \<lparr>Position = zero_Position, Connections = []\<rparr>,
     Nodes = [], Types = [], Instances = []\<rparr>"

subsection \<open>Formatting (package fmt)\<close>

text \<open>The verb \<open>%d\<close> on an unsigned value: its decimal digits.\<close>

function string_of_nat :: "nat \<Rightarrow> string" where
  "string_of_nat k =
     (if k < 10 then [char_of (48 + k)]
      else string_of_nat (k div 10) @ [char_of (48 + k mod 10)])"
  by pat_completeness auto
termination
  by (relation "measure (\<lambda>k. k)") auto

declare string_of_nat.simps [simp del]

text \<open>The verb \<open>%v\<close> on a \<open>[]byte\<close>: the decimal values between brackets, separated by
  one space.\<close>

fun fmt_join :: "string list \<Rightarrow> string" where
  "fmt_join [] = []"
| "fmt_join [s] = s"
| "fmt_join (s # t # ss) = s @ '' '' @ fmt_join (t # ss)"

definition fmt_bytes :: "byte list \<Rightarrow> string" where
  "fmt_bytes bs = ''['' @ fmt_join (map (\<lambda>b. string_of_nat (unat b)) bs) @ '']''"

text \<open>The verb \<open>%v\<close> on a \<open>bool\<close>.\<close>

definition fmt_bool :: "bool \<Rightarrow> string" where
  "fmt_bool b = (if b then ''true'' else ''false'')"

text \<open>The conversion \<open>string(bs)\<close> of a byte slice.\<close>

definition string_of_bytes :: "byte list \<Rightarrow> string" where
  "string_of_bytes bs = map (\<lambda>b. char_of (unat b)) bs"

text \<open>
  The three phase labels that the source builds with \<open>fmt.Sprintf\<close>:
  \<open>"reading outgoing connection [%d]"\<close>, \<open>"parsing instance [%d]"\<close> and
  \<open>"parsing socket [%d] in instance [%d]"\<close>.
\<close>

definition ctx_connection :: "nat \<Rightarrow> string" where
  "ctx_connection k = ''reading outgoing connection ['' @ string_of_nat k @ '']''"

definition ctx_instance :: "nat \<Rightarrow> string" where
  "ctx_instance ii = ''parsing instance ['' @ string_of_nat ii @ '']''"

definition ctx_socket :: "nat \<Rightarrow> nat \<Rightarrow> string" where
  "ctx_socket si ii =
     ''parsing socket ['' @ string_of_nat si @ ''] in instance ['' @ string_of_nat ii @ '']''"

subsection \<open>The cursor: \<open>parser.error\<close> and \<open>parser.read\<close>\<close>

definition p_error :: "parser \<Rightarrow> string \<Rightarrow> ParseError" where
  "p_error p msg = \<lparr>Context = p_ctx p, Message = msg, Index = p_i p\<rparr>"

text \<open>
  \<open>read\<close> calls \<open>binary.Decode(p.buf[p.i:], binary.BigEndian, v)\<close>. The number of bytes
  that \<open>Decode\<close> needs is fixed by the type (and, for a slice, the length) of \<open>v\<close>; it is
  the parameter \<open>k\<close> here. \<open>Decode\<close> fails with the error "buffer too small" when the
  slice is shorter than \<open>k\<close>, and otherwise consumes exactly \<open>k\<close> bytes, which are returned.
  The slice expression \<open>p.buf[p.i:]\<close> is \<open>drop (p_i p) (p_buf p)\<close>; it would panic for
  \<open>p.i > len(p.buf)\<close>, a state that \<open>cursor_inv\<close> below excludes. The allocation of the
  destination (\<open>make([]byte, n)\<close>) before a read is not part of the model.
\<close>

definition read :: "parser \<Rightarrow> nat \<Rightarrow> parser \<times> (ParseError + byte list)" where
  "read p k =
     (if length (drop (p_i p) (p_buf p)) < k
      then (p, Inl (p_error p ''internal read error (buffer too small)''))
      else (p\<lparr>p_i := p_i p + k\<rparr>, Inr (take k (drop (p_i p) (p_buf p)))))"

text \<open>Reading into a \<open>*byte\<close>: one byte.\<close>

definition read_byte :: "parser \<Rightarrow> parser \<times> (ParseError + byte)" where
  "read_byte p =
     (case read p 1 of
        (p', Inl e) \<Rightarrow> (p', Inl e)
      | (p', Inr bs) \<Rightarrow> (p', Inr (bs ! 0)))"

text \<open>Reading into a \<open>*uint32\<close>: four bytes, big-endian.\<close>

definition be_uint32 :: "byte list \<Rightarrow> 32 word" where
  "be_uint32 bs =
     push_bit 24 (ucast (bs ! 0)) OR push_bit 16 (ucast (bs ! 1))
       OR push_bit 8 (ucast (bs ! 2)) OR ucast (bs ! 3)"

definition read_uint32 :: "parser \<Rightarrow> parser \<times> (ParseError + 32 word)" where
  "read_uint32 p =
     (case read p 4 of
        (p', Inl e) \<Rightarrow> (p', Inl e)
      | (p', Inr bs) \<Rightarrow> (p', Inr (be_uint32 bs)))"

subsection \<open>\<open>parseHeader\<close>\<close>

definition parseHeader :: "parser \<Rightarrow> parser \<times> ParseError option" where
  "parseHeader p0 =
     (let p1 = p0\<lparr>p_ctx := ''parsing magic''\<rparr> in
      case read p1 11 of
        (p2, Inl e) \<Rightarrow> (p2, Some e)
      | (p2, Inr magic) \<Rightarrow>
          if string_of_bytes magic \<noteq> MAGIC_NUMBER
          then (p2, Some (p_error p2 (''invalid magic '' @ fmt_bytes magic)))
          else
            (let p3 = p2\<lparr>p_ctx := ''reading version number''\<rparr> in
             (case read_byte p3 of
                (p4, Inl e) \<Rightarrow> (p4, Some e)
              | (p4, Inr v) \<Rightarrow>
                  (let p5 = p4\<lparr>p_n := (p_n p4)\<lparr>Version := v\<rparr>\<rparr> in
                   if unat v > LATEST_VERSION
                   then (p5, Some (p_error p5
                          (''invalid version number '' @ string_of_nat (unat v)
                           @ '' (higher than latest ['' @ string_of_nat LATEST_VERSION
                           @ ''])'')))
                   else (p5, None)))))"

subsection \<open>\<open>parseRoots\<close>\<close>

text \<open>The four bit-unpacking expressions of the 5-byte root window.\<close>

definition root_in_x :: "byte list \<Rightarrow> 16 word" where
  "root_in_x pos = (push_bit 2 (ucast (pos ! 0)) OR ucast (drop_bit (8 - 2) (pos ! 1) AND 3)) - 500"

definition root_in_y :: "byte list \<Rightarrow> 16 word" where
  "root_in_y pos = (push_bit 4 (ucast (pos ! 1 AND 63)) OR ucast (drop_bit 4 (pos ! 2) AND 15)) - 500"

definition root_out_x :: "byte list \<Rightarrow> 16 word" where
  "root_out_x pos = (push_bit 6 (ucast (pos ! 2 AND 15)) OR ucast (drop_bit (8 - 6) (pos ! 3) AND 63)) - 500"

definition root_out_y :: "byte list \<Rightarrow> 16 word" where
  "root_out_y pos = (push_bit 8 (ucast (pos ! 3 AND 3)) OR ucast (pos ! 4)) - 500"

text \<open>The loop \<open>for i := range connCount\<close>: \<open>m\<close> iterations remain, \<open>k\<close> is the index.\<close>

fun readConnections :: "nat \<Rightarrow> nat \<Rightarrow> parser \<Rightarrow> parser \<times> ParseError option" where
  "readConnections 0 k p = (p, None)"
| "readConnections (Suc m) k p =
     (let p1 = p\<lparr>p_ctx := ctx_connection k\<rparr> in
      case read p1 2 of
        (p2, Inl e) \<Rightarrow> (p2, Some e)
      | (p2, Inr nodeAndSock) \<Rightarrow>
          readConnections m (Suc k)
            (p2\<lparr>p_n := (p_n p2)\<lparr>OutputRoot := (OutputRoot (p_n p2))
               \<lparr>Connections := Connections (OutputRoot (p_n p2))
                  @ [(nodeAndSock ! 0, nodeAndSock ! 1)]\<rparr>\<rparr>\<rparr>))"

definition parseRoots :: "parser \<Rightarrow> parser \<times> ParseError option" where
  "parseRoots p0 =
     (let p1 = p0\<lparr>p_ctx := ''unpacking root positions''\<rparr> in
      case read p1 5 of
        (p2, Inl e) \<Rightarrow> (p2, Some e)
      | (p2, Inr pos) \<Rightarrow>
          (let p3 = p2\<lparr>p_n := (p_n p2)
                  \<lparr>InputRootPosition := \<lparr>X = root_in_x pos, Y = root_in_y pos\<rparr>,
                   OutputRoot := (OutputRoot (p_n p2))
                     \<lparr>Position := \<lparr>X = root_out_x pos, Y = root_out_y pos\<rparr>\<rparr>\<rparr>\<rparr>;
               p4 = p3\<lparr>p_ctx := ''reading amount of connections''\<rparr> in
           (case read_byte p4 of
              (p5, Inl e) \<Rightarrow> (p5, Some e)
            | (p5, Inr connCount) \<Rightarrow> readConnections (unat connCount) 0 p5)))"

subsection \<open>\<open>parseNodesAndTypes\<close>\<close>

text \<open>The two table loops; neither changes the phase label.\<close>

fun readNodes :: "nat \<Rightarrow> parser \<Rightarrow> parser \<times> ParseError option" where
  "readNodes 0 p = (p, None)"
| "readNodes (Suc m) p =
     (case read_byte p of
        (p1, Inl e) \<Rightarrow> (p1, Some e)
      | (p1, Inr l) \<Rightarrow>
          (case read p1 (unat l) of
             (p2, Inl e) \<Rightarrow> (p2, Some e)
           | (p2, Inr nodeType) \<Rightarrow>
               readNodes m (p2\<lparr>p_n := (p_n p2)
                 \<lparr>Nodes := Nodes (p_n p2) @ [string_of_bytes nodeType]\<rparr>\<rparr>)))"

fun readTypes :: "nat \<Rightarrow> parser \<Rightarrow> parser \<times> ParseError option" where
  "readTypes 0 p = (p, None)"
| "readTypes (Suc m) p =
     (case read_byte p of
        (p1, Inl e) \<Rightarrow> (p1, Some e)
      | (p1, Inr l) \<Rightarrow>
          (case read p1 (unat l) of
             (p2, Inl e) \<Rightarrow> (p2, Some e)
           | (p2, Inr valueType) \<Rightarrow>
               readTypes m (p2\<lparr>p_n := (p_n p2)
                 \<lparr>Types := Types (p_n p2) @ [string_of_bytes valueType]\<rparr>\<rparr>)))"

definition parseNodesAndTypes :: "parser \<Rightarrow> parser \<times> ParseError option" where
  "parseNodesAndTypes p0 =
     (let p1 = p0\<lparr>p_ctx := ''reading amount of nodes''\<rparr> in
      case read_byte p1 of
        (p2, Inl e) \<Rightarrow> (p2, Some e)
      | (p2, Inr nodeCount) \<Rightarrow>
          (case readNodes (unat nodeCount) p2 of
             (p3, Some e) \<Rightarrow> (p3, Some e)
           | (p3, None) \<Rightarrow>
               (let p4 = p3\<lparr>p_ctx := ''reading amount of types''\<rparr> in
                (case read_byte p4 of
                   (p5, Inl e) \<Rightarrow> (p5, Some e)
                 | (p5, Inr typeCount) \<Rightarrow> readTypes (unat typeCount) p5))))"

subsection \<open>\<open>parseSocket\<close>\<close>

text \<open>The four fields of the flags byte, as the source computes them.\<close>

definition flags_Type :: "byte \<Rightarrow> SocketType" where
  "flags_Type socketFlags = drop_bit 3 socketFlags AND 7"

definition flags_Connected :: "byte \<Rightarrow> bool" where
  "flags_Connected socketFlags = (socketFlags AND 2 \<noteq> 0)"

definition flags_Repetitive :: "byte \<Rightarrow> bool" where
  "flags_Repetitive socketFlags = (socketFlags AND 4 \<noteq> 0)"

definition flags_switchValue :: "byte \<Rightarrow> bool" where
  "flags_switchValue socketFlags = (socketFlags AND 1 \<noteq> 0)"

text \<open>The conditional tail of a socket, entered after the three fixed bytes.\<close>

definition parseSocketTail ::
    "parser \<Rightarrow> Socket \<Rightarrow> bool \<Rightarrow> parser \<times> (ParseError + Socket)" where
  "parseSocketTail p s switchValue =
     (if Type s \<noteq> OutgoingNamed then
        (if Connected s then
           (case read_byte p of
              (p1, Inl e) \<Rightarrow> (p1, Inl e)
            | (p1, Inr cn) \<Rightarrow>
                (case read_byte p1 of
                   (p2, Inl e) \<Rightarrow> (p2, Inl e)
                 | (p2, Inr cs) \<Rightarrow>
                     (p2, Inr (s\<lparr>ConnectedNode := cn, ConnectedSocket := cs\<rparr>))))
         else if Type s \<noteq> IncomingSwitch then
           (case read_uint32 p of
              (p1, Inl e) \<Rightarrow> (p1, Inl e)
            | (p1, Inr valueLen) \<Rightarrow>
                (case read p1 (unat valueLen) of
                   (p2, Inl e) \<Rightarrow> (p2, Inl e)
                 | (p2, Inr val) \<Rightarrow> (p2, Inr (s\<lparr>Value := string_of_bytes val\<rparr>))))
         else (p, Inr (s\<lparr>Value := fmt_bool switchValue\<rparr>)))
      else (p, Inr s))"

text \<open>
  \<open>parseSocket\<close> takes the instance by pointer and appends the socket to it; on an
  error the instance is returned unchanged.
\<close>

definition parseSocket :: "parser \<Rightarrow> Instance \<Rightarrow> parser \<times> Instance \<times> ParseError option" where
  "parseSocket p inst =
     (case read_byte p of
        (p1, Inl e) \<Rightarrow> (p1, inst, Some e)
      | (p1, Inr socketFlags) \<Rightarrow>
          (let s1 = zero_Socket\<lparr>Type := flags_Type socketFlags,
                      Connected := flags_Connected socketFlags,
                      Repetitive := flags_Repetitive socketFlags\<rparr>;
               switchValue = flags_switchValue socketFlags in
           (case read_byte p1 of
              (p2, Inl e) \<Rightarrow> (p2, inst, Some e)
            | (p2, Inr vt) \<Rightarrow>
                (case read_byte p2 of
                   (p3, Inl e) \<Rightarrow> (p3, inst, Some e)
                 | (p3, Inr ps) \<Rightarrow>
                     (case parseSocketTail p3 (s1\<lparr>ValueType := vt, PortSlot := ps\<rparr>)
                             switchValue of
                        (p4, Inl e) \<Rightarrow> (p4, inst, Some e)
                      | (p4, Inr s) \<Rightarrow>
                          (p4, inst\<lparr>Sockets := Sockets inst @ [s]\<rparr>, None))))))"

subsection \<open>\<open>parseInstances\<close>\<close>

text \<open>The bit-unpacking expressions of the 4-byte instance window.\<close>

definition inst_x :: "byte list \<Rightarrow> 16 word" where
  "inst_x sizeInfo =
     (push_bit 2 (ucast (sizeInfo ! 0)) OR ucast (drop_bit (8 - 2) (sizeInfo ! 1) AND 3)) - 500"

definition inst_y :: "byte list \<Rightarrow> 16 word" where
  "inst_y sizeInfo =
     (push_bit 4 (ucast (sizeInfo ! 1 AND 63)) OR ucast (drop_bit (8 - 4) (sizeInfo ! 2) AND 15))
       - 500"

definition instNameLen :: "byte list \<Rightarrow> byte" where
  "instNameLen sizeInfo =
     push_bit 2 (sizeInfo ! 2 AND 15) OR (drop_bit (8 - 2) (sizeInfo ! 3) AND 3)"

definition instSockCount :: "byte list \<Rightarrow> byte" where
  "instSockCount sizeInfo = sizeInfo ! 3 AND 63"

text \<open>The inner loop \<open>for si := range instSockCount\<close> of instance \<open>ii\<close>.\<close>

fun parseSockets ::
    "nat \<Rightarrow> nat \<Rightarrow> nat \<Rightarrow> parser \<Rightarrow> Instance \<Rightarrow> parser \<times> Instance \<times> ParseError option" where
  "parseSockets 0 si ii p inst = (p, inst, None)"
| "parseSockets (Suc m) si ii p inst =
     (let p1 = p\<lparr>p_ctx := ctx_socket si ii\<rparr> in
      (case parseSocket p1 inst of
         (p2, inst2, Some e) \<Rightarrow> (p2, inst2, Some e)
       | (p2, inst2, None) \<Rightarrow> parseSockets m (Suc si) ii p2 inst2))"

text \<open>The body of the outer loop, for the instance of index \<open>ii\<close>.\<close>

definition parseInstance :: "nat \<Rightarrow> parser \<Rightarrow> parser \<times> ParseError option" where
  "parseInstance ii p0 =
     (let p1 = p0\<lparr>p_ctx := ctx_instance ii\<rparr> in
      (case read_byte p1 of
         (p2, Inl e) \<Rightarrow> (p2, Some e)
       | (p2, Inr k) \<Rightarrow>
           (case read_byte p2 of
              (p3, Inl e) \<Rightarrow> (p3, Some e)
            | (p3, Inr t) \<Rightarrow>
                (case read p3 4 of
                   (p4, Inl e) \<Rightarrow> (p4, Some e)
                 | (p4, Inr sizeInfo) \<Rightarrow>
                     (case read p4 (unat (instNameLen sizeInfo)) of
                        (p5, Inl e) \<Rightarrow> (p5, Some e)
                      | (p5, Inr name) \<Rightarrow>
                          (let inst = zero_Instance\<lparr>Key := k, InstType := t,
                                 InstPosition := \<lparr>X = inst_x sizeInfo, Y = inst_y sizeInfo\<rparr>,
                                 Name := string_of_bytes name\<rparr> in
                           (case parseSockets (unat (instSockCount sizeInfo)) 0 ii p5 inst of
                              (p6, inst6, Some e) \<Rightarrow> (p6, Some e)
                            | (p6, inst6, None) \<Rightarrow>
                                (p6\<lparr>p_n := (p_n p6)
                                   \<lparr>Instances := Instances (p_n p6) @ [inst6]\<rparr>\<rparr>, None))))))))"

fun parseInstanceLoop :: "nat \<Rightarrow> nat \<Rightarrow> parser \<Rightarrow> parser \<times> ParseError option" where
  "parseInstanceLoop 0 ii p = (p, None)"
| "parseInstanceLoop (Suc m) ii p =
     (case parseInstance ii p of
        (p1, Some e) \<Rightarrow> (p1, Some e)
      | (p1, None) \<Rightarrow> parseInstanceLoop m (Suc ii) p1)"

definition parseInstances :: "parser \<Rightarrow> parser \<times> ParseError option" where
  "parseInstances p0 =
     (let p1 = p0\<lparr>p_ctx := ''reading amount of instances''\<rparr> in
      (case read_byte p1 of
         (p2, Inl e) \<Rightarrow> (p2, Some e)
       | (p2, Inr instanceCount) \<Rightarrow> parseInstanceLoop (unat instanceCount) 0 p2))"

subsection \<open>\<open>parse\<close> and \<open>ParseFromSlice\<close>\<close>

text \<open>
  \<open>parse\<close> is a method on the parser, so besides the pair \<open>(*Node, *ParseError)\<close> of
  the source it returns the parser it leaves behind. A bare \<open>return\<close> leaves the unnamed
  first result \<open>nil\<close>.
\<close>

definition parse :: "parser \<Rightarrow> parser \<times> Node option \<times> ParseError option" where
  "parse p0 =
     (let p1 = p0\<lparr>p_n := zero_Node\<rparr> in
      (case parseHeader p1 of
         (p2, Some e) \<Rightarrow> (p2, None, Some e)
       | (p2, None) \<Rightarrow>
           (case parseRoots p2 of
              (p3, Some e) \<Rightarrow> (p3, None, Some e)
            | (p3, None) \<Rightarrow>
                (case parseNodesAndTypes p3 of
                   (p4, Some e) \<Rightarrow> (p4, None, Some e)
                 | (p4, None) \<Rightarrow>
                     (case parseInstances p4 of
                        (p5, Some e) \<Rightarrow> (p5, None, Some e)
                      | (p5, None) \<Rightarrow> (p5, Some (p_n p5), None))))))"

text \<open>
  The composite literal \<open>parser{buf: buf}\<close> leaves \<open>i\<close> at 0 and \<open>ctx\<close> empty; its \<open>n\<close>
  is \<open>nil\<close> until \<open>parse\<close> assigns it, so any node can stand for it here.
  \<open>ParseFromSlice\<close> returns what \<open>parse\<close> returns and drops the parser.
\<close>

definition new_parser :: "byte list \<Rightarrow> parser" where
  "new_parser b = \<lparr>p_buf = b, p_i = 0, p_ctx = [], p_n = zero_Node\<rparr>"

definition ParseFromSlice :: "byte list \<Rightarrow> Node option \<times> ParseError option" where
  "ParseFromSlice b = snd (parse (new_parser b))"

section \<open>Specification-side notions\<close>



text \<open>
  The cursor invariant, and the relation between the parser before and after a step: the
  buffer is the same, the offset has not moved back and is still inside the buffer.
\<close>

definition cursor_inv :: "parser \<Rightarrow> bool" where
  "cursor_inv p = (p_i p \<le> length (p_buf p))"

definition cursor_step :: "parser \<Rightarrow> parser \<Rightarrow> bool" where
  "cursor_step p p' =
     (p_buf p' = p_buf p \<and> p_i p \<le> p_i p' \<and> p_i p' \<le> length (p_buf p'))"

text \<open>The error that \<open>read\<close> builds in the parser state \<open>p\<close>.\<close>

definition short_read :: "parser \<Rightarrow> ParseError" where
  "short_read p = \<lparr>Context = p_ctx p, Message = ''internal read error (buffer too small)'',
     Index = p_i p\<rparr>"

text \<open>The socket that \<open>parseSocket\<close> holds once its three fixed bytes are read.\<close>

definition socket_head :: "parser \<Rightarrow> Socket" where
  "socket_head p =
     \<lparr>Type = flags_Type (p_buf p ! p_i p), ValueType = p_buf p ! (p_i p + 1),
      PortSlot = p_buf p ! (p_i p + 2), Repetitive = flags_Repetitive (p_buf p ! p_i p),
      Connected = flags_Connected (p_buf p ! p_i p), ConnectedSocket = 0, ConnectedNode = 0,
      Value = []\<rparr>"

text \<open>
  The phase labels that the parser ever sets, and what it means for an error to report
  the state of the parser: it carries the label and the offset of that state, the label is
  one of the phase labels, and its message is not empty.
\<close>

definition phase_label :: "string \<Rightarrow> bool" where
  "phase_label c =
     (c = ''parsing magic'' \<or> c = ''reading version number''
      \<or> c = ''unpacking root positions'' \<or> c = ''reading amount of connections''
      \<or> (\<exists>k. c = ctx_connection k)
      \<or> c = ''reading amount of nodes'' \<or> c = ''reading amount of types''
      \<or> c = ''reading amount of instances''
      \<or> (\<exists>ii. c = ctx_instance ii)
      \<or> (\<exists>si ii. c = ctx_socket si ii))"


text \<open>
  Two buffers of the scenarios: the minimal document (magic, version 1, five zero bytes
  and four zero counts), and a buffer that ends inside the root window.
\<close>

definition minimal_buffer :: "byte list" where
  "minimal_buffer = [107, 114, 111, 110, 97, 114, 107, 110, 111, 100, 101, 1,
                     0, 0, 0, 0, 0, 0, 0, 0, 0]"




section \<open>Bit unpacking\<close>




























section \<open>The cursor\<close>




lemma cursor_upd [simp]:
  "cursor_inv (p\<lparr>p_ctx := c\<rparr>) = cursor_inv p"
  "cursor_inv (p\<lparr>p_n := nd\<rparr>) = cursor_inv p"
  "cursor_step (p\<lparr>p_ctx := c\<rparr>) q = cursor_step p q"
  "cursor_step (p\<lparr>p_n := nd\<rparr>) q = cursor_step p q"
  "cursor_step p (q\<lparr>p_ctx := c\<rparr>) = cursor_step p q"
  "cursor_step p (q\<lparr>p_n := nd\<rparr>) = cursor_step p q"
  by (simp_all add: cursor_inv_def cursor_step_def)

lemma short_read_upd [simp]:
  "short_read (p\<lparr>p_n := nd\<rparr>) = short_read p"
  by (simp add: short_read_def)

text \<open>\<open>read\<close> and \<open>read_byte\<close> in closed form.\<close>

lemma read_eq:
  "read p k =
     (if k \<le> length (p_buf p) - p_i p
      then (p\<lparr>p_i := p_i p + k\<rparr>, Inr (take k (drop (p_i p) (p_buf p))))
      else (p, Inl (short_read p)))"
  by (auto simp: read_def short_read_def p_error_def)

lemma read_byte_eq:
  "read_byte p =
     (if p_i p < length (p_buf p)
      then (p\<lparr>p_i := p_i p + 1\<rparr>, Inr (p_buf p ! p_i p))
      else (p, Inl (short_read p)))"
  by (auto simp: read_byte_def read_eq)

section \<open>Sockets\<close>

text \<open>The masks of \<open>parseSocket\<close> select single bits of the flags byte.\<close>

lemma flags_bits:
  "flags_switchValue f = bit f 0" "flags_Connected f = bit f 1" "flags_Repetitive f = bit f 2"
  "unat (flags_Type f) = (unat f div 8) mod 8"
proof -
  show "flags_switchValue f = bit f 0"
    using bit_iff_and_push_bit_not_eq_0[of f 0] by (simp add: flags_switchValue_def)
  show "flags_Connected f = bit f 1"
    using bit_iff_and_push_bit_not_eq_0[of f 1] by (simp add: flags_Connected_def)
  show "flags_Repetitive f = bit f 2"
    using bit_iff_and_push_bit_not_eq_0[of f 2] by (simp add: flags_Repetitive_def)
  have "flags_Type f = take_bit 3 (drop_bit 3 f)"
    by (simp add: flags_Type_def take_bit_eq_mask mask_eq_exp_minus_1)
  then show "unat (flags_Type f) = (unat f div 8) mod 8"
    by (simp add: take_bit_eq_mod drop_bit_eq_div unat_div unat_mod)
qed

text \<open>The conditional tail, branch by branch.\<close>

lemma tail_outgoing:
  "Type s = OutgoingNamed \<Longrightarrow> parseSocketTail p s sv = (p, Inr s)"
  by (simp add: parseSocketTail_def)

lemma tail_switch:
  "Type s \<noteq> OutgoingNamed \<Longrightarrow> \<not> Connected s \<Longrightarrow> Type s = IncomingSwitch \<Longrightarrow>
     parseSocketTail p s sv = (p, Inr (s\<lparr>Value := fmt_bool sv\<rparr>))"
  by (simp add: parseSocketTail_def)

lemma tail_connected:
  assumes "Type s \<noteq> OutgoingNamed" "Connected s"
  shows "parseSocketTail p s sv =
     (if p_i p + 2 \<le> length (p_buf p)
      then (p\<lparr>p_i := p_i p + 2\<rparr>,
            Inr (s\<lparr>ConnectedNode := p_buf p ! p_i p, ConnectedSocket := p_buf p ! (p_i p + 1)\<rparr>))
      else if p_i p < length (p_buf p)
      then (p\<lparr>p_i := p_i p + 1\<rparr>, Inl (short_read (p\<lparr>p_i := p_i p + 1\<rparr>)))
      else (p, Inl (short_read p)))"
proof -
  have "parseSocketTail p s sv =
      (case read_byte p of
              (p1, Inl e) \<Rightarrow> (p1, Inl e)
            | (p1, Inr cn) \<Rightarrow>
                (case read_byte p1 of
                   (p2, Inl e) \<Rightarrow> (p2, Inl e)
                 | (p2, Inr cs) \<Rightarrow>
                     (p2, Inr (s\<lparr>ConnectedNode := cn, ConnectedSocket := cs\<rparr>))))"
    using assms by (simp add: parseSocketTail_def)
  also have "\<dots> = (if p_i p + 2 \<le> length (p_buf p)
      then (p\<lparr>p_i := p_i p + 2\<rparr>,
            Inr (s\<lparr>ConnectedNode := p_buf p ! p_i p, ConnectedSocket := p_buf p ! (p_i p + 1)\<rparr>))
      else if p_i p < length (p_buf p)
      then (p\<lparr>p_i := p_i p + 1\<rparr>, Inl (short_read (p\<lparr>p_i := p_i p + 1\<rparr>)))
      else (p, Inl (short_read p)))"
    by (simp add: read_byte_eq)
  finally show ?thesis .
qed


lemma read_uint32_eq:
  "read_uint32 p =
     (if 4 \<le> length (p_buf p) - p_i p
      then (p\<lparr>p_i := p_i p + 4\<rparr>, Inr (be_uint32 (take 4 (drop (p_i p) (p_buf p)))))
      else (p, Inl (short_read p)))"
  by (simp add: read_uint32_def read_eq)

lemma tail_value:
  assumes "Type s \<noteq> OutgoingNamed" "\<not> Connected s" "Type s \<noteq> IncomingSwitch"
  shows "parseSocketTail p s sv =
     (if 4 \<le> length (p_buf p) - p_i p
      then (if unat (be_uint32 (take 4 (drop (p_i p) (p_buf p)))) \<le> length (p_buf p) - (p_i p + 4)
            then (p\<lparr>p_i := p_i p + 4 + unat (be_uint32 (take 4 (drop (p_i p) (p_buf p))))\<rparr>,
                  Inr (s\<lparr>Value := string_of_bytes
                     (take (unat (be_uint32 (take 4 (drop (p_i p) (p_buf p)))))
                        (drop (p_i p + 4) (p_buf p)))\<rparr>))
            else (p\<lparr>p_i := p_i p + 4\<rparr>, Inl (short_read (p\<lparr>p_i := p_i p + 4\<rparr>))))
      else (p, Inl (short_read p)))"
proof -
  have "parseSocketTail p s sv =
           (case read_uint32 p of
              (p1, Inl e) \<Rightarrow> (p1, Inl e)
            | (p1, Inr valueLen) \<Rightarrow>
                (case read p1 (unat valueLen) of
                   (p2, Inl e) \<Rightarrow> (p2, Inl e)
                 | (p2, Inr val) \<Rightarrow> (p2, Inr (s\<lparr>Value := string_of_bytes val\<rparr>))))"
    using assms by (simp add: parseSocketTail_def)
  also have "\<dots> = (if 4 \<le> length (p_buf p) - p_i p
      then (if unat (be_uint32 (take 4 (drop (p_i p) (p_buf p)))) \<le> length (p_buf p) - (p_i p + 4)
            then (p\<lparr>p_i := p_i p + 4 + unat (be_uint32 (take 4 (drop (p_i p) (p_buf p))))\<rparr>,
                  Inr (s\<lparr>Value := string_of_bytes
                     (take (unat (be_uint32 (take 4 (drop (p_i p) (p_buf p)))))
                        (drop (p_i p + 4) (p_buf p)))\<rparr>))
            else (p\<lparr>p_i := p_i p + 4\<rparr>, Inl (short_read (p\<lparr>p_i := p_i p + 4\<rparr>))))
      else (p, Inl (short_read p)))"
    by (simp add: read_uint32_eq read_eq add.commute)
  finally show ?thesis .
qed


lemma parseSocket_enough:
  assumes "p_i p + 3 \<le> length (p_buf p)"
  shows "parseSocket p inst =
     (case parseSocketTail (p\<lparr>p_i := p_i p + 3\<rparr>) (socket_head p)
             (flags_switchValue (p_buf p ! p_i p)) of
        (p4, Inl e) \<Rightarrow> (p4, inst, Some e)
      | (p4, Inr s) \<Rightarrow> (p4, inst\<lparr>Sockets := Sockets inst @ [s]\<rparr>, None))"
proof -
  have "p_i p < length (p_buf p)" "Suc (p_i p) < length (p_buf p)"
    "Suc (Suc (p_i p)) < length (p_buf p)"
    using assms by simp_all
  then show ?thesis
    by (simp add: parseSocket_def read_byte_eq Let_def zero_Socket_def socket_head_def
          eval_nat_numeral)
qed

lemma parseSocket_short:
  assumes "length (p_buf p) < p_i p + 3" "cursor_inv p"
  shows "parseSocket p inst = (p\<lparr>p_i := length (p_buf p)\<rparr>, inst,
            Some (short_read (p\<lparr>p_i := length (p_buf p)\<rparr>)))"
proof -
  have "p_i p = length (p_buf p) \<or> Suc (p_i p) = length (p_buf p)
          \<or> Suc (Suc (p_i p)) = length (p_buf p)"
    using assms by (auto simp: cursor_inv_def)
  then consider "p_i p = length (p_buf p)" | "Suc (p_i p) = length (p_buf p)"
    | "Suc (Suc (p_i p)) = length (p_buf p)"
    by blast
  then show ?thesis
  proof cases
    case 1
    then show ?thesis by (simp add: parseSocket_def read_byte_eq short_read_def)
  next
    case 2
    then have "p_i p < length (p_buf p)" by simp
    then show ?thesis using 2 by (simp add: parseSocket_def read_byte_eq Let_def short_read_def)
  next
    case 3
    then have "p_i p < length (p_buf p)" "Suc (p_i p) < length (p_buf p)" by simp_all
    then show ?thesis using 3 by (simp add: parseSocket_def read_byte_eq Let_def short_read_def)
  qed
qed

lemma parseSocket_None_enough:
  assumes "parseSocket p inst = (p', inst', None)"
  shows "p_i p + 3 \<le> length (p_buf p)"
proof (rule ccontr)
  assume "\<not> p_i p + 3 \<le> length (p_buf p)"
  then consider "length (p_buf p) \<le> p_i p" | "Suc (p_i p) = length (p_buf p)"
    | "Suc (Suc (p_i p)) = length (p_buf p)"
    by linarith
  then have "\<exists>q e. parseSocket p inst = (q, inst, Some e)"
  proof cases
    case 1
    then show ?thesis by (simp add: parseSocket_def read_byte_eq)
  next
    case 2
    then have "p_i p < length (p_buf p)" by simp
    then show ?thesis using 2 by (simp add: parseSocket_def read_byte_eq Let_def)
  next
    case 3
    then have "p_i p < length (p_buf p)" "Suc (p_i p) < length (p_buf p)" by simp_all
    then show ?thesis using 3 by (simp add: parseSocket_def read_byte_eq Let_def)
  qed
  then show False using assms by auto
qed

lemma kind_bits:
  "((unat f div 8) mod 8 = 0) = (flags_Type f = OutgoingNamed)"
  "((unat f div 8) mod 8 = 4) = (flags_Type f = IncomingSwitch)"
proof -
  have "(flags_Type f = 0) = (unat (flags_Type f) = 0)"
    by (simp add: unat_eq_0)
  then show "((unat f div 8) mod 8 = 0) = (flags_Type f = OutgoingNamed)"
    by (simp add: flags_bits(4) OutgoingNamed_def)
  have "(flags_Type f = 4) = (unat (flags_Type f) = unat (4::byte))"
    by (simp only: word_unat_eq_iff)
  then show "((unat f div 8) mod 8 = 4) = (flags_Type f = IncomingSwitch)"
    by (simp add: flags_bits(4) IncomingSwitch_def)
qed

lemma socket_head_sel [simp]:
  "Type (socket_head p) = flags_Type (p_buf p ! p_i p)"
  "Connected (socket_head p) = flags_Connected (p_buf p ! p_i p)"
  by (simp_all add: socket_head_def)

text \<open>
  Claim C5. A socket whose kind bits encode outgoing-named, with its three fixed bytes in
  the buffer, is decoded by reading exactly the flags, value-type and port-slot bytes: the
  cursor advances by three, and the socket has no connection reference (both connection
  fields stay 0) and no inline value (the value stays empty), whatever the other bits of
  the flags byte are.
\<close>

theorem outgoing_named_reads_three:
  assumes "p_i p + 3 \<le> length (p_buf p)"
    and "f = p_buf p ! p_i p"
    and "(unat f div 8) mod 8 = 0"
  shows "parseSocket p inst =
      (p\<lparr>p_i := p_i p + 3\<rparr>,
       inst\<lparr>Sockets := Sockets inst @
         [\<lparr>Type = OutgoingNamed, ValueType = p_buf p ! (p_i p + 1),
           PortSlot = p_buf p ! (p_i p + 2), Repetitive = bit f 2, Connected = bit f 1,
           ConnectedSocket = 0, ConnectedNode = 0, Value = []\<rparr>]\<rparr>,
       None)"
proof -
  have t: "flags_Type (p_buf p ! p_i p) = OutgoingNamed"
    using assms(2,3) by (simp add: kind_bits)
  then have "parseSocketTail (p\<lparr>p_i := p_i p + 3\<rparr>) (socket_head p)
               (flags_switchValue (p_buf p ! p_i p))
             = (p\<lparr>p_i := p_i p + 3\<rparr>, Inr (socket_head p))"
    by (simp add: tail_outgoing)
  then show ?thesis
    using t assms(2) by (simp add: parseSocket_enough[OF assms(1)] socket_head_def flags_bits)
qed

theorem outgoing_named_reads_three_witness:
  "parseSocket \<lparr>p_buf = [7, 9, 10, 3, 1], p_i = 0, p_ctx = [], p_n = zero_Node\<rparr> zero_Instance =
     (\<lparr>p_buf = [7, 9, 10, 3, 1], p_i = 3, p_ctx = [], p_n = zero_Node\<rparr>,
      zero_Instance\<lparr>Sockets :=
         [\<lparr>Type = OutgoingNamed, ValueType = 9, PortSlot = 10, Repetitive = True,
           Connected = True, ConnectedSocket = 0, ConnectedNode = 0, Value = []\<rparr>]\<rparr>,
      None)"
  using outgoing_named_reads_three
    [of "\<lparr>p_buf = [7, 9, 10, 3, 1], p_i = 0, p_ctx = [], p_n = zero_Node\<rparr>" 7 zero_Instance]
  by (simp add: zero_Instance_def bit_numeral_Bit1_Suc_iff)

lemma parseSocket_success:
  assumes "parseSocket p inst = (p', inst', None)"
  shows "\<exists>s. parseSocketTail (p\<lparr>p_i := p_i p + 3\<rparr>) (socket_head p)
               (flags_switchValue (p_buf p ! p_i p)) = (p', Inr s)
           \<and> inst' = inst\<lparr>Sockets := Sockets inst @ [s]\<rparr>"
proof -
  have "p_i p + 3 \<le> length (p_buf p)"
    using assms by (rule parseSocket_None_enough)
  then show ?thesis
    using assms by (auto simp: parseSocket_enough split: prod.splits sum.splits)
qed

text \<open>
  Claim C4. A socket whose kind bits encode incoming-switch and whose connected bit is
  clear gets the text "true" as its inline value if bit 0 of the flags byte is set and the
  text "false" otherwise; the cursor advances by the three fixed bytes only, so no length
  and no value bytes are read.
\<close>

theorem switch_value_synthesized:
  assumes "p_i p + 3 \<le> length (p_buf p)"
    and "f = p_buf p ! p_i p"
    and "(unat f div 8) mod 8 = 4"
    and "\<not> bit f 1"
  shows "parseSocket p inst =
      (p\<lparr>p_i := p_i p + 3\<rparr>,
       inst\<lparr>Sockets := Sockets inst @
         [\<lparr>Type = IncomingSwitch, ValueType = p_buf p ! (p_i p + 1),
           PortSlot = p_buf p ! (p_i p + 2), Repetitive = bit f 2, Connected = False,
           ConnectedSocket = 0, ConnectedNode = 0,
           Value = (if bit f 0 then ''true'' else ''false'')\<rparr>]\<rparr>,
       None)"
proof -
  have t: "flags_Type (p_buf p ! p_i p) = IncomingSwitch"
    using assms(2,3) by (simp add: kind_bits)
  have c: "\<not> flags_Connected (p_buf p ! p_i p)"
    using assms(2,4) by (simp add: flags_bits)
  have "parseSocketTail (p\<lparr>p_i := p_i p + 3\<rparr>) (socket_head p)
               (flags_switchValue (p_buf p ! p_i p))
             = (p\<lparr>p_i := p_i p + 3\<rparr>,
                Inr ((socket_head p)\<lparr>Value := fmt_bool (flags_switchValue (p_buf p ! p_i p))\<rparr>))"
    using t c by (simp add: tail_switch IncomingSwitch_def OutgoingNamed_def)
  then show ?thesis
    using t c assms(2)
    by (simp add: parseSocket_enough[OF assms(1)] socket_head_def flags_bits fmt_bool_def)
qed

theorem switch_value_synthesized_witness:
  "parseSocket \<lparr>p_buf = [33, 9, 10, 3, 1], p_i = 0, p_ctx = [], p_n = zero_Node\<rparr> zero_Instance =
     (\<lparr>p_buf = [33, 9, 10, 3, 1], p_i = 3, p_ctx = [], p_n = zero_Node\<rparr>,
      zero_Instance\<lparr>Sockets :=
         [\<lparr>Type = IncomingSwitch, ValueType = 9, PortSlot = 10, Repetitive = False,
           Connected = False, ConnectedSocket = 0, ConnectedNode = 0, Value = ''true''\<rparr>]\<rparr>,
      None)
   \<and> parseSocket \<lparr>p_buf = [32, 9, 10], p_i = 0, p_ctx = [], p_n = zero_Node\<rparr> zero_Instance =
     (\<lparr>p_buf = [32, 9, 10], p_i = 3, p_ctx = [], p_n = zero_Node\<rparr>,
      zero_Instance\<lparr>Sockets :=
         [\<lparr>Type = IncomingSwitch, ValueType = 9, PortSlot = 10, Repetitive = False,
           Connected = False, ConnectedSocket = 0, ConnectedNode = 0, Value = ''false''\<rparr>]\<rparr>,
      None)"
  using switch_value_synthesized
    [of "\<lparr>p_buf = [33, 9, 10, 3, 1], p_i = 0, p_ctx = [], p_n = zero_Node\<rparr>" 33 zero_Instance]
    switch_value_synthesized
    [of "\<lparr>p_buf = [32, 9, 10], p_i = 0, p_ctx = [], p_n = zero_Node\<rparr>" 32 zero_Instance]
  by (simp add: zero_Instance_def bit_numeral_Bit1_Suc_iff bit_numeral_Bit0_Suc_iff)

lemma parseSocketTail_fields:
  assumes "parseSocketTail p s sv = (p', Inr s')"
  shows "Type s' = Type s \<and> Connected s' = Connected s \<and> Repetitive s' = Repetitive s
     \<and> ValueType s' = ValueType s \<and> PortSlot s' = PortSlot s
     \<and> (Type s = OutgoingNamed \<longrightarrow> s' = s \<and> p' = p)"
proof (cases "Type s = OutgoingNamed")
  case True
  then show ?thesis using assms by (auto simp: tail_outgoing)
next
  case out: False
  show ?thesis
  proof (cases "Connected s")
    case True
    have "parseSocketTail p s sv = (p', Inr s')" by fact
    then show ?thesis using out unfolding tail_connected[OF out True]
      by (auto split: if_splits)
  next
    case nc: False
    show ?thesis
    proof (cases "Type s = IncomingSwitch")
      case True
      then show ?thesis using assms out nc by (auto simp: tail_switch)
    next
      case False
      have "parseSocketTail p s sv = (p', Inr s')" by fact
      then show ?thesis using out unfolding tail_value[OF out nc False]
        by (auto split: if_splits)
    qed
  qed
qed

lemma parseSocket_connected:
  assumes "cursor_inv p" and "f = p_buf p ! p_i p"
    and "(unat f div 8) mod 8 \<noteq> 0" and "bit f 1"
  shows "parseSocket p inst =
               (if p_i p + 5 \<le> length (p_buf p)
                then (p\<lparr>p_i := p_i p + 5\<rparr>,
                      inst\<lparr>Sockets := Sockets inst @
                        [\<lparr>Type = flags_Type f, ValueType = p_buf p ! (p_i p + 1),
                          PortSlot = p_buf p ! (p_i p + 2), Repetitive = bit f 2,
                          Connected = True, ConnectedSocket = p_buf p ! (p_i p + 4),
                          ConnectedNode = p_buf p ! (p_i p + 3), Value = []\<rparr>]\<rparr>,
                      None)
                else (p\<lparr>p_i := length (p_buf p)\<rparr>, inst,
                      Some \<lparr>Context = p_ctx p,
                        Message = ''internal read error (buffer too small)'',
                        Index = length (p_buf p)\<rparr>))"
proof (cases "p_i p + 3 \<le> length (p_buf p)")
  case False
  then have "length (p_buf p) < p_i p + 3" by simp
  from parseSocket_short[OF this assms(1)] False show ?thesis
    by (simp add: short_read_def)
next
  case True
  have t: "Type (socket_head p) \<noteq> OutgoingNamed"
    using assms(2,3) by (simp add: kind_bits)
  have c: "Connected (socket_head p)"
    using assms(2,4) by (simp add: flags_bits)
  consider "p_i p + 5 \<le> length (p_buf p)" | "p_i p + 4 = length (p_buf p)"
    | "p_i p + 3 = length (p_buf p)"
    using True by linarith
  then show ?thesis
  proof cases
    case 1
    then show ?thesis using assms(2,4)
      unfolding parseSocket_enough[OF True] tail_connected[OF t c]
      by (simp add: socket_head_def flags_bits ac_simps)
  next
    case 2
    then show ?thesis using assms(2)
      unfolding parseSocket_enough[OF True] tail_connected[OF t c]
      by (simp add: short_read_def ac_simps)
  next
    case 3
    then show ?thesis using assms(2)
      unfolding parseSocket_enough[OF True] tail_connected[OF t c]
      by (simp add: short_read_def)
  qed
qed

text \<open>
  Claim C3. In every socket that is decoded, the kind is bits 3 to 5 of the flags byte,
  the connected flag is bit 1 and the repetitive flag is bit 2; the switch value is bit 0;
  the six kinds are numbered 0 to 5. When the kind is not outgoing-named and the connected
  bit is set, exactly two bytes follow the three fixed ones: the connected instance index and
  the connected socket index; the socket gets them and its value stays empty (with fewer
  than five bytes left the read fails at the end of the buffer).
\<close>

theorem socket_flags_layout:
  assumes "cursor_inv p" and "f = p_buf p ! p_i p"
  shows "(parseSocket p inst = (p', inst', None) \<longrightarrow>
            Sockets inst' = Sockets inst @ [last (Sockets inst')]
            \<and> unat (Type (last (Sockets inst'))) = (unat f div 8) mod 8
            \<and> Connected (last (Sockets inst')) = bit f 1
            \<and> Repetitive (last (Sockets inst')) = bit f 2)
       \<and> flags_switchValue f = bit f 0
       \<and> unat OutgoingNamed = 0 \<and> unat IncomingNamed = 1 \<and> unat IncomingNumber = 2
       \<and> unat IncomingSelect = 3 \<and> unat IncomingSwitch = 4 \<and> unat IncomingText = 5
       \<and> ((unat f div 8) mod 8 \<noteq> 0 \<and> bit f 1 \<longrightarrow>
             parseSocket p inst =
               (if p_i p + 5 \<le> length (p_buf p)
                then (p\<lparr>p_i := p_i p + 5\<rparr>,
                      inst\<lparr>Sockets := Sockets inst @
                        [\<lparr>Type = flags_Type f, ValueType = p_buf p ! (p_i p + 1),
                          PortSlot = p_buf p ! (p_i p + 2), Repetitive = bit f 2,
                          Connected = True, ConnectedSocket = p_buf p ! (p_i p + 4),
                          ConnectedNode = p_buf p ! (p_i p + 3), Value = []\<rparr>]\<rparr>,
                      None)
                else (p\<lparr>p_i := length (p_buf p)\<rparr>, inst,
                      Some \<lparr>Context = p_ctx p,
                        Message = ''internal read error (buffer too small)'',
                        Index = length (p_buf p)\<rparr>)))"
proof -
  have a: "Sockets inst' = Sockets inst @ [last (Sockets inst')]
            \<and> unat (Type (last (Sockets inst'))) = (unat f div 8) mod 8
            \<and> Connected (last (Sockets inst')) = bit f 1
            \<and> Repetitive (last (Sockets inst')) = bit f 2"
    if ok: "parseSocket p inst = (p', inst', None)"
  proof -
    from parseSocket_success[OF ok] obtain s where
      tl: "parseSocketTail (p\<lparr>p_i := p_i p + 3\<rparr>) (socket_head p)
               (flags_switchValue (p_buf p ! p_i p)) = (p', Inr s)"
      and i': "inst' = inst\<lparr>Sockets := Sockets inst @ [s]\<rparr>"
      by blast
    from parseSocketTail_fields[OF tl] i' assms(2) show ?thesis
      by (simp add: socket_head_def flags_bits)
  qed
  have b: "unat OutgoingNamed = 0 \<and> unat IncomingNamed = 1 \<and> unat IncomingNumber = 2
       \<and> unat IncomingSelect = 3 \<and> unat IncomingSwitch = 4 \<and> unat IncomingText = 5"
    by (simp add: OutgoingNamed_def IncomingNamed_def IncomingNumber_def IncomingSelect_def
          IncomingSwitch_def IncomingText_def)
  show ?thesis
    using a b parseSocket_connected[OF assms, of inst] flags_bits(1)[of f] by blast
qed



theorem socket_flags_layout_witness:
  "parseSocket \<lparr>p_buf = [26, 9, 10, 3, 1], p_i = 0, p_ctx = [], p_n = zero_Node\<rparr> zero_Instance =
     (\<lparr>p_buf = [26, 9, 10, 3, 1], p_i = 5, p_ctx = [], p_n = zero_Node\<rparr>,
      zero_Instance\<lparr>Sockets :=
         [\<lparr>Type = IncomingSelect, ValueType = 9, PortSlot = 10, Repetitive = False,
           Connected = True, ConnectedSocket = 1, ConnectedNode = 3, Value = []\<rparr>]\<rparr>,
      None)"
  using socket_flags_layout
    [of "\<lparr>p_buf = [26, 9, 10, 3, 1], p_i = 0, p_ctx = [], p_n = zero_Node\<rparr>" 26 zero_Instance
        "\<lparr>p_buf = [26, 9, 10, 3, 1], p_i = 5, p_ctx = [], p_n = zero_Node\<rparr>"
        "zero_Instance\<lparr>Sockets :=
         [\<lparr>Type = IncomingSelect, ValueType = 9, PortSlot = 10, Repetitive = False,
           Connected = True, ConnectedSocket = 1, ConnectedNode = 3, Value = []\<rparr>]\<rparr>"]
  by (simp add: zero_Instance_def cursor_inv_def bit_numeral_Bit1_Suc_iff bit_numeral_Bit0_Suc_iff
        flags_Type_def IncomingSelect_def)

lemma parseSocket_outgoing_example:
  "parseSocket \<lparr>p_buf = [2, 9, 10], p_i = 0, p_ctx = [], p_n = zero_Node\<rparr> zero_Instance =
     (\<lparr>p_buf = [2, 9, 10], p_i = 3, p_ctx = [], p_n = zero_Node\<rparr>,
      zero_Instance\<lparr>Sockets :=
         [\<lparr>Type = OutgoingNamed, ValueType = 9, PortSlot = 10, Repetitive = False,
           Connected = True, ConnectedSocket = 0, ConnectedNode = 0, Value = []\<rparr>]\<rparr>,
      None)"
  by (simp add: parseSocket_def parseSocketTail_def read_byte_eq Let_def zero_Socket_def
        zero_Instance_def flags_Type_def flags_Connected_def flags_Repetitive_def
        flags_switchValue_def OutgoingNamed_def)

text \<open>
  Claim C10. In every decoded socket whose kind bits encode outgoing-named, the fields
  \<open>Connected\<close> and \<open>Repetitive\<close> are bits 1 and 2 of the flags byte, the fields
  \<open>ConnectedNode\<close> and \<open>ConnectedSocket\<close> are 0 and \<open>Value\<close> is empty; there is an
  outgoing-named socket with \<open>Connected\<close> set.
\<close>

theorem outgoing_named_keeps_flags:
  assumes "parseSocket p inst = (p', inst', None)"
    and "f = p_buf p ! p_i p"
    and "(unat f div 8) mod 8 = 0"
  shows "Sockets inst' = Sockets inst @ [last (Sockets inst')]
     \<and> Type (last (Sockets inst')) = OutgoingNamed
     \<and> Connected (last (Sockets inst')) = bit f 1
     \<and> Repetitive (last (Sockets inst')) = bit f 2
     \<and> ConnectedNode (last (Sockets inst')) = 0
     \<and> ConnectedSocket (last (Sockets inst')) = 0
     \<and> Value (last (Sockets inst')) = []
     \<and> (\<exists>q i q' i'. parseSocket q i = (q', i', None)
            \<and> Type (last (Sockets i')) = OutgoingNamed \<and> Connected (last (Sockets i')))"
proof -
  from parseSocket_success[OF assms(1)] obtain s where
    tl: "parseSocketTail (p\<lparr>p_i := p_i p + 3\<rparr>) (socket_head p)
             (flags_switchValue (p_buf p ! p_i p)) = (p', Inr s)"
    and i': "inst' = inst\<lparr>Sockets := Sockets inst @ [s]\<rparr>"
    by blast
  have t: "Type (socket_head p) = OutgoingNamed"
    using assms(2,3) by (simp add: kind_bits)
  with parseSocketTail_fields[OF tl] have "s = socket_head p"
    by simp
  then have fields: "Sockets inst' = Sockets inst @ [last (Sockets inst')]
     \<and> Type (last (Sockets inst')) = OutgoingNamed
     \<and> Connected (last (Sockets inst')) = bit f 1
     \<and> Repetitive (last (Sockets inst')) = bit f 2
     \<and> ConnectedNode (last (Sockets inst')) = 0
     \<and> ConnectedSocket (last (Sockets inst')) = 0
     \<and> Value (last (Sockets inst')) = []"
    using i' t assms(2) by (simp add: socket_head_def flags_bits)
  have "\<exists>q i q' i'. parseSocket q i = (q', i', None)
            \<and> Type (last (Sockets i')) = OutgoingNamed \<and> Connected (last (Sockets i'))"
    by (rule exI, rule exI, rule exI, rule exI, rule conjI,
        rule parseSocket_outgoing_example) simp
  with fields show ?thesis by blast
qed

theorem outgoing_named_keeps_flags_witness:
  "Connected (last (Sockets (fst (snd (parseSocket
      \<lparr>p_buf = [6, 9, 10], p_i = 0, p_ctx = [], p_n = zero_Node\<rparr> zero_Instance)))))
   \<and> Repetitive (last (Sockets (fst (snd (parseSocket
      \<lparr>p_buf = [6, 9, 10], p_i = 0, p_ctx = [], p_n = zero_Node\<rparr> zero_Instance)))))
   \<and> ConnectedNode (last (Sockets (fst (snd (parseSocket
      \<lparr>p_buf = [6, 9, 10], p_i = 0, p_ctx = [], p_n = zero_Node\<rparr> zero_Instance))))) = 0
   \<and> Value (last (Sockets (fst (snd (parseSocket
      \<lparr>p_buf = [6, 9, 10], p_i = 0, p_ctx = [], p_n = zero_Node\<rparr> zero_Instance))))) = []"
proof -
  have ex: "parseSocket \<lparr>p_buf = [6, 9, 10], p_i = 0, p_ctx = [], p_n = zero_Node\<rparr> zero_Instance =
     (\<lparr>p_buf = [6, 9, 10], p_i = 3, p_ctx = [], p_n = zero_Node\<rparr>,
      zero_Instance\<lparr>Sockets :=
         [\<lparr>Type = OutgoingNamed, ValueType = 9, PortSlot = 10, Repetitive = True,
           Connected = True, ConnectedSocket = 0, ConnectedNode = 0, Value = []\<rparr>]\<rparr>,
      None)"
    by (simp add: parseSocket_def parseSocketTail_def read_byte_eq Let_def zero_Socket_def
        zero_Instance_def flags_Type_def flags_Connected_def flags_Repetitive_def
        flags_switchValue_def OutgoingNamed_def)
  show ?thesis
    using outgoing_named_keeps_flags[OF ex, of 6]
    by (simp add: ex bit_numeral_Bit1_Suc_iff bit_numeral_Bit0_Suc_iff)
qed

section \<open>The phases and their loops\<close>

lemma phase_label_fixed [simp]:
  "phase_label ''parsing magic''" "phase_label ''reading version number''"
  "phase_label ''unpacking root positions''" "phase_label ''reading amount of connections''"
  "phase_label ''reading amount of nodes''" "phase_label ''reading amount of types''"
  "phase_label ''reading amount of instances''"
  by (simp_all add: phase_label_def)

lemma phase_label_indexed [simp]:
  "phase_label (ctx_connection k)" "phase_label (ctx_instance ii)"
  "phase_label (ctx_socket si ii)"
  unfolding phase_label_def by blast+



lemma short_read_sel [simp]:
  "Context (short_read p) = p_ctx p" "Index (short_read p) = p_i p"
  "Message (short_read p) = ''internal read error (buffer too small)''"
  by (simp_all add: short_read_def)












section \<open>The header\<close>

lemma string_of_nat_1: "string_of_nat 1 = ''1''"
  by code_simp

lemma string_of_nat_Suc_0: "string_of_nat (Suc 0) = ''1''"
  using string_of_nat_1 by simp

lemma parseHeader_eq:
  "parseHeader p =
    (if \<not> 11 \<le> length (p_buf p) - p_i p
     then (p\<lparr>p_ctx := ''parsing magic''\<rparr>, Some (short_read (p\<lparr>p_ctx := ''parsing magic''\<rparr>)))
     else if string_of_bytes (take 11 (drop (p_i p) (p_buf p))) \<noteq> MAGIC_NUMBER
     then (p\<lparr>p_ctx := ''parsing magic'', p_i := p_i p + 11\<rparr>,
           Some \<lparr>Context = ''parsing magic'',
                 Message = ''invalid magic '' @ fmt_bytes (take 11 (drop (p_i p) (p_buf p))),
                 Index = p_i p + 11\<rparr>)
     else if \<not> p_i p + 11 < length (p_buf p)
     then (p\<lparr>p_ctx := ''reading version number'', p_i := p_i p + 11\<rparr>,
           Some (short_read (p\<lparr>p_ctx := ''reading version number'', p_i := p_i p + 11\<rparr>)))
     else (p\<lparr>p_ctx := ''reading version number'', p_i := p_i p + 12,
              p_n := (p_n p)\<lparr>Version := p_buf p ! (p_i p + 11)\<rparr>\<rparr>,
           if 1 < unat (p_buf p ! (p_i p + 11))
           then Some \<lparr>Context = ''reading version number'',
                  Message = ''invalid version number ''
                    @ string_of_nat (unat (p_buf p ! (p_i p + 11)))
                    @ '' (higher than latest [1])'',
                  Index = p_i p + 12\<rparr>
           else None))"
  by (simp add: parseHeader_def read_eq read_byte_eq Let_def p_error_def LATEST_VERSION_def
        string_of_nat_Suc_0 short_read_def)


lemma new_parser_sel [simp]:
  "p_buf (new_parser b) = b" "p_i (new_parser b) = 0" "p_ctx (new_parser b) = []"
  "p_n (new_parser b) = zero_Node" "(new_parser b)\<lparr>p_n := zero_Node\<rparr> = new_parser b"
  "cursor_inv (new_parser b)"
  by (simp_all add: new_parser_def cursor_inv_def)

lemma parse_header_error:
  assumes "parseHeader (new_parser b) = (p', Some e)"
  shows "parse (new_parser b) = (p', None, Some e)"
  using assms by (simp add: parse_def)

text \<open>
  Claim C1, as amended. For every buffer of at least 12 bytes whose first 11 bytes are
  not the magic literal, decoding fails in the phase "parsing magic" with the message
  "invalid magic" followed by the 11 bytes read, and the reported offset is 11: the
  cursor stands behind the magic bytes when the error is built.
\<close>

theorem invalid_magic_reported:
  assumes "12 \<le> length b"
    and "string_of_bytes (take 11 b) \<noteq> MAGIC_NUMBER"
  shows "ParseFromSlice b =
     (None, Some \<lparr>Context = ''parsing magic'',
                  Message = ''invalid magic '' @ fmt_bytes (take 11 b), Index = 11\<rparr>)"
proof -
  have "parseHeader (new_parser b) =
      ((new_parser b)\<lparr>p_ctx := ''parsing magic'', p_i := 11\<rparr>,
       Some \<lparr>Context = ''parsing magic'',
                  Message = ''invalid magic '' @ fmt_bytes (take 11 b), Index = 11\<rparr>)"
    using assms by (simp add: parseHeader_eq)
  from parse_header_error[OF this] show ?thesis
    by (simp add: ParseFromSlice_def)
qed

theorem invalid_magic_reported_witness:
  "ParseFromSlice [75, 114, 111, 110, 97, 114, 107, 110, 111, 100, 101, 1, 0] =
     (None, Some \<lparr>Context = ''parsing magic'',
                  Message = ''invalid magic [75 114 111 110 97 114 107 110 111 100 101]'',
                  Index = 11\<rparr>)"
proof -
  have h1: "12 \<le> length [75, 114, 111, 110, 97, 114, 107, 110, 111, 100, 101, 1, 0 :: byte]"
    by simp
  have h2: "string_of_bytes (take 11 [75, 114, 111, 110, 97, 114, 107, 110, 111, 100, 101, 1, 0])
              \<noteq> MAGIC_NUMBER"
    by code_simp
  have m: "fmt_bytes (take 11 [75, 114, 111, 110, 97, 114, 107, 110, 111, 100, 101, 1, 0])
             = ''[75 114 111 110 97 114 107 110 111 100 101]''"
    by code_simp
  show ?thesis
    using invalid_magic_reported[OF h1 h2] unfolding m by simp
qed

text \<open>
  The claim as stated (offset 0) fails: on twelve zero bytes the reported offset is 11.
\<close>

theorem invalid_magic_offset_counterexample:
  "12 \<le> length [0, 0, 0, 0, 0, 0, 0, 0, 0, 0, 0, 0 :: byte]
   \<and> string_of_bytes (take 11 [0, 0, 0, 0, 0, 0, 0, 0, 0, 0, 0, 0]) \<noteq> MAGIC_NUMBER
   \<and> ParseFromSlice [0, 0, 0, 0, 0, 0, 0, 0, 0, 0, 0, 0] =
        (None, Some \<lparr>Context = ''parsing magic'',
                     Message = ''invalid magic [0 0 0 0 0 0 0 0 0 0 0]'', Index = 11\<rparr>)
   \<and> Index (the (snd (ParseFromSlice [0, 0, 0, 0, 0, 0, 0, 0, 0, 0, 0, 0]))) \<noteq> 0"
proof -
  have h2: "string_of_bytes (take 11 [0, 0, 0, 0, 0, 0, 0, 0, 0, 0, 0, 0]) \<noteq> MAGIC_NUMBER"
    by code_simp
  have m: "fmt_bytes (take 11 [0, 0, 0, 0, 0, 0, 0, 0, 0, 0, 0, 0])
             = ''[0 0 0 0 0 0 0 0 0 0 0]''"
    by code_simp
  have "parseHeader (new_parser [0, 0, 0, 0, 0, 0, 0, 0, 0, 0, 0, 0]) =
      ((new_parser [0, 0, 0, 0, 0, 0, 0, 0, 0, 0, 0, 0])\<lparr>p_ctx := ''parsing magic'', p_i := 11\<rparr>,
       Some \<lparr>Context = ''parsing magic'',
                  Message = ''invalid magic [0 0 0 0 0 0 0 0 0 0 0]'', Index = 11\<rparr>)"
    using h2 m by (simp add: parseHeader_eq)
  from parse_header_error[OF this] h2 show ?thesis
    by (simp add: ParseFromSlice_def)
qed

section \<open>The whole decode\<close>








lemma magic_ok: "string_of_bytes [107, 114, 111, 110, 97, 114, 107, 110, 111, 100, 101] = MAGIC_NUMBER"
  by code_simp

text \<open>
  Claim C6. Decoding the minimal buffer succeeds and gives version 1, both root
  positions (-500, -500), and empty connections, tables and instances.
\<close>

theorem minimal_document:
  "ParseFromSlice minimal_buffer =
     (Some \<lparr>Version = 1,
             InputRootPosition = \<lparr>X = - 500, Y = - 500\<rparr>,
             OutputRoot = \<lparr>Position = \<lparr>X = - 500, Y = - 500\<rparr>, Connections = []\<rparr>,
             Nodes = [], Types = [], Instances = []\<rparr>,
      None)
   \<and> sint (- 500 :: 16 word) = - 500"
  by (simp add: ParseFromSlice_def new_parser_def parse_def parseHeader_def read_eq read_byte_eq
      minimal_buffer_def magic_ok LATEST_VERSION_def parseRoots_def parseNodesAndTypes_def
      parseInstances_def zero_Node_def zero_Position_def root_in_x_def root_in_y_def
      root_out_x_def root_out_y_def Let_def)

section \<open>The version byte\<close>





section \<open>The cursor stays inside the buffer\<close>






end
